theory Spec2Isabelle
  imports Main
begin

section \<open>The state/time engine of \<open>src/app.js\<close>\<close>

text \<open>
  The engine lives in the closure \<open>app\<close> of \<open>src/app.js\<close> (lines 610 to 1011): one
  mutable object \<open>state\<close>, the session counter \<open>sessionEarned\<close>, and the functions
  \<open>pushActivity\<close>, \<open>ensureDaily\<close>, \<open>runTask\<close>, \<open>createVps\<close>, \<open>stopVps\<close>, \<open>extendVps\<close> and
  \<open>tick\<close>. The model passes the state explicitly. JavaScript numbers that hold points,
  seconds and milliseconds are integers here. The calls \<open>persist()\<close>, \<open>render()\<close>,
  \<open>setBtnLoading\<close> and \<open>toast.show\<close> do not change \<open>state\<close> and are left out; the toast
  an operation shows on an early return is kept as its \<open>outcome\<close>.

  JavaScript runs each stretch of code between two \<open>await\<close>s to completion, so one such
  stretch reads one value of the clock: every function below takes the \<open>clock\<close> reading
  of the stretch it models. An \<open>async\<close> function is split at its \<open>await\<close> into a
  \<open>_start\<close> and a \<open>_resume\<close> part; constants captured before the \<open>await\<close> are arguments
  of the \<open>_resume\<close> part.
\<close>

subsection \<open>Configuration (\<open>CFG\<close>, lines 19 to 29)\<close>

record task_cfg =
  reward :: int
  cooldownSec :: int
  cfg_label :: string

definition CFG_redeem_points :: int where "CFG_redeem_points = 10"
definition CFG_redeem_seconds :: int where "CFG_redeem_seconds = 6 * 60 * 60"
definition CFG_extend_points :: int where "CFG_extend_points = 50"
definition CFG_extend_seconds :: int where "CFG_extend_seconds = 60 * 60"
definition CFG_activityMax :: nat where "CFG_activityMax = 6"

definition CFG_tasks :: "string \<Rightarrow> task_cfg option" where
  "CFG_tasks type =
     (if type = ''video'' then
        Some \<lparr>reward = 5, cooldownSec = 0, cfg_label = ''Watched Ad''\<rparr>
      else if type = ''short'' then
        Some \<lparr>reward = 2, cooldownSec = 25, cfg_label = ''Short Link Completed''\<rparr>
      else if type = ''daily'' then
        Some \<lparr>reward = 10, cooldownSec = 0, cfg_label = ''Daily Bonus Achieved''\<rparr>
      else None)"

subsection \<open>Clock (\<open>nowMs\<close>, \<open>utcDateKey\<close>, lines 55 to 64)\<close>

text \<open>
  A \<open>Date\<close> object is read through \<open>getUTCFullYear\<close>, \<open>getUTCMonth\<close> (0 to 11) and
  \<open>getUTCDate\<close> only. A clock reading is what \<open>Date.now()\<close> and \<open>new Date()\<close> give
  within one synchronous stretch. How the runtime derives the calendar fields from the
  milliseconds is not part of the source and is not modelled; the concrete readings
  used below pair each instant with its own UTC date.
\<close>

record jsdate =
  getUTCFullYear :: int
  getUTCMonth :: int
  getUTCDate :: int

record clock =
  nowMs :: int
  newDate :: jsdate

definition digit_char :: "nat \<Rightarrow> char" where
  "digit_char d = char_of (of_char (CHR ''0'') + d)"

fun nat_to_string :: "nat \<Rightarrow> string" where
  "nat_to_string n =
     (if n < 10 then [digit_char n] else nat_to_string (n div 10) @ [digit_char (n mod 10)])"

definition String_of :: "int \<Rightarrow> string" where
  "String_of i = (if i < 0 then CHR ''-'' # nat_to_string (nat (- i)) else nat_to_string (nat i))"

definition padStart :: "nat \<Rightarrow> char \<Rightarrow> string \<Rightarrow> string" where
  "padStart n c s = replicate (n - length s) c @ s"

definition utcDateKey :: "jsdate \<Rightarrow> string" where
  "utcDateKey d =
     (let y = getUTCFullYear d;
          m = padStart 2 (CHR ''0'') (String_of (getUTCMonth d + 1));
          day = padStart 2 (CHR ''0'') (String_of (getUTCDate d))
      in String_of y @ ''-'' @ m @ ''-'' @ day)"

subsection \<open>State (lines 613 to 652)\<close>

datatype vps_status = Stopped | Provisioning | Running

record vps_state =
  status :: vps_status
  timeLeftSec :: int
  lastTickMs :: int

record daily_state =
  utcDate :: string
  earned :: int
  dailyClaimedUtcDate :: string

record activity_entry =
  label :: string
  delta :: int
  ts :: int

text \<open>
  \<open>tasks\<close> is the object \<open>state.tasks\<close>: it maps a task type to the \<open>cooldownUntilMs\<close>
  of its entry, and a type with no entry to \<open>None\<close>.
\<close>

record app_state =
  pointsBalance :: int
  vps :: vps_state
  daily :: daily_state
  tasks :: "string \<rightharpoonup> int"
  activity :: "activity_entry list"
  sessionEarned :: int

definition initial_tasks :: "string \<rightharpoonup> int" where
  "initial_tasks = [''video'' \<mapsto> 0, ''short'' \<mapsto> 0]"

definition initial :: "clock \<Rightarrow> app_state" where
  "initial c =
     \<lparr>pointsBalance = 0,
      vps = \<lparr>status = Stopped, timeLeftSec = 0, lastTickMs = nowMs c\<rparr>,
      daily = \<lparr>utcDate = utcDateKey (newDate c), earned = 0, dailyClaimedUtcDate = ''''\<rparr>,
      tasks = initial_tasks,
      activity = [],
      sessionEarned = 0\<rparr>"

text \<open>
  What \<open>loadJSON\<close> returns for a stored object: \<open>daily\<close>, \<open>tasks\<close> and \<open>activity\<close> may be
  missing. \<open>normalize\<close> is the load-time normalisation of lines 635 to 652, with \<open>today\<close>
  the constant of line 611 and \<open>se\<close> the number read from \<open>sessionStorage\<close> (0 when
  there is none).
\<close>

record stored_state =
  st_pointsBalance :: int
  st_vps :: vps_state
  st_daily :: "daily_state option"
  st_tasks :: "(string \<rightharpoonup> int) option"
  st_activity :: "activity_entry list option"

definition normalize :: "clock \<Rightarrow> int \<Rightarrow> stored_state \<Rightarrow> app_state" where
  "normalize c se st =
     (let today = utcDateKey (newDate c);
          fresh = \<lparr>utcDate = today, earned = 0, dailyClaimedUtcDate = ''''\<rparr>;
          d1 = (case st_daily st of
                  None \<Rightarrow> fresh
                | Some d \<Rightarrow> if utcDate d \<noteq> today then fresh else d);
          d2 = (if dailyClaimedUtcDate d1 \<noteq> '''' \<and> dailyClaimedUtcDate d1 \<noteq> today
                then d1\<lparr>dailyClaimedUtcDate := ''''\<rparr> else d1)
      in \<lparr>pointsBalance = st_pointsBalance st,
          vps = st_vps st,
          daily = d2,
          tasks = (case st_tasks st of None \<Rightarrow> initial_tasks | Some t \<Rightarrow> t),
          activity = (case st_activity st of None \<Rightarrow> [] | Some a \<Rightarrow> a),
          sessionEarned = se\<rparr>)"

subsection \<open>\<open>pushActivity\<close> and \<open>ensureDaily\<close> (lines 663 to 678)\<close>

definition pushActivity :: "clock \<Rightarrow> string \<Rightarrow> int \<Rightarrow> app_state \<Rightarrow> app_state" where
  "pushActivity c l d s =
     s\<lparr>activity := take CFG_activityMax (\<lparr>label = l, delta = d, ts = nowMs c\<rparr> # activity s)\<rparr>"

definition ensureDaily :: "clock \<Rightarrow> app_state \<Rightarrow> app_state" where
  "ensureDaily c s =
     (let t = utcDateKey (newDate c)
      in if utcDate (daily s) \<noteq> t
         then s\<lparr>daily := (daily s)\<lparr>utcDate := t, earned := 0, dailyClaimedUtcDate := ''''\<rparr>\<rparr>
         else s)"

subsection \<open>Operations (lines 813 to 974)\<close>

text \<open>
  The way an operation leaves: \<open>Completed\<close> is the end of the function body,
  \<open>Suspended\<close> the \<open>await\<close>, \<open>ThrewTypeError\<close> the assignment to a property of
  \<open>undefined\<close> in line 855, and the others the early \<open>return\<close>s, named after the toast
  shown before them (\<open>NotLoggedIn\<close> opens the login modal, \<open>UnknownTask\<close> and \<open>Cancelled\<close>
  show nothing). \<open>loggedIn\<close> is the value of \<open>auth.isLoggedIn()\<close>. The \<open>return\<close> of line
  839 is not modelled: \<open>runTask\<close> is bound in line 981 only to cards whose button
  passed the same test.
\<close>

datatype outcome =
  Completed | Suspended | ThrewTypeError
  | NotLoggedIn | UnknownTask | AlreadyClaimedToday | OnCooldown
  | AlreadyActive | InsufficientFunds | NotRunning | NothingToExtend | Cancelled

definition runTask_start :: "clock \<Rightarrow> bool \<Rightarrow> string \<Rightarrow> app_state \<Rightarrow> outcome \<times> app_state" where
  "runTask_start c loggedIn type s =
     (let s1 = ensureDaily c s in
      if \<not> loggedIn then (NotLoggedIn, s1)
      else case CFG_tasks type of
        None \<Rightarrow> (UnknownTask, s1)
      | Some cfg \<Rightarrow>
          let today = utcDateKey (newDate c) in
          if type = ''daily'' then
            (if dailyClaimedUtcDate (daily s1) = today then (AlreadyClaimedToday, s1)
             else (Suspended, s1))
          else
            (let cd = (case tasks s1 type of None \<Rightarrow> 0 | Some u \<Rightarrow> u)
             in if nowMs c < cd then (OnCooldown, s1) else (Suspended, s1)))"

text \<open>
  The part of \<open>runTask\<close> after the simulated delay (lines 845 to 861); \<open>type\<close>, \<open>cfg\<close>
  and \<open>today\<close> are the values captured before the \<open>await\<close>.
\<close>

definition runTask_resume ::
    "clock \<Rightarrow> string \<Rightarrow> task_cfg \<Rightarrow> string \<Rightarrow> app_state \<Rightarrow> outcome \<times> app_state" where
  "runTask_resume c type cfg today s =
     (let s1 = s\<lparr>pointsBalance := pointsBalance s + reward cfg,
                 sessionEarned := sessionEarned s + reward cfg\<rparr>;
          s2 = ensureDaily c s1;
          s3 = s2\<lparr>daily := (daily s2)\<lparr>earned := earned (daily s2) + reward cfg\<rparr>\<rparr>;
          s4 = pushActivity c (cfg_label cfg) (reward cfg) s3
      in if type = ''daily'' then
           (Completed, s4\<lparr>daily := (daily s4)\<lparr>dailyClaimedUtcDate := today\<rparr>\<rparr>)
         else
           (case tasks s4 type of
              None \<Rightarrow> (ThrewTypeError, s4)
            | Some u \<Rightarrow>
                (Completed, s4\<lparr>tasks := (tasks s4)(type \<mapsto> nowMs c + cooldownSec cfg * 1000)\<rparr>)))"

definition createVps_start :: "clock \<Rightarrow> bool \<Rightarrow> app_state \<Rightarrow> outcome \<times> app_state" where
  "createVps_start c loggedIn s =
     (if \<not> loggedIn then (NotLoggedIn, s)
      else if status (vps s) = Running \<or> status (vps s) = Provisioning then (AlreadyActive, s)
      else if pointsBalance s < CFG_redeem_points then (InsufficientFunds, s)
      else (Suspended,
            s\<lparr>pointsBalance := pointsBalance s - CFG_redeem_points,
              vps := (vps s)\<lparr>status := Provisioning\<rparr>\<rparr>))"

definition createVps_resume :: "clock \<Rightarrow> app_state \<Rightarrow> outcome \<times> app_state" where
  "createVps_resume c s =
     (let s1 = s\<lparr>vps := (vps s)\<lparr>status := Running,
                                timeLeftSec := CFG_redeem_seconds,
                                lastTickMs := nowMs c\<rparr>\<rparr>
      in (Completed, pushActivity c ''Redeemed VPS 6H'' (- CFG_redeem_points) s1))"

definition stopVps_start :: "clock \<Rightarrow> bool \<Rightarrow> app_state \<Rightarrow> outcome \<times> app_state" where
  "stopVps_start c loggedIn s =
     (if \<not> loggedIn then (NotLoggedIn, s)
      else if status (vps s) \<noteq> Running then (NotRunning, s)
      else (Suspended, s))"

text \<open>The part of \<open>stopVps\<close> after the confirmation modal has answered \<open>ok\<close>.\<close>

definition stopVps_resume :: "clock \<Rightarrow> bool \<Rightarrow> app_state \<Rightarrow> outcome \<times> app_state" where
  "stopVps_resume c ok s =
     (if \<not> ok then (Cancelled, s)
      else (Completed, s\<lparr>vps := (vps s)\<lparr>status := Stopped, lastTickMs := nowMs c\<rparr>\<rparr>))"

definition extendVps :: "clock \<Rightarrow> bool \<Rightarrow> app_state \<Rightarrow> outcome \<times> app_state" where
  "extendVps c loggedIn s =
     (if \<not> loggedIn then (NotLoggedIn, s)
      else if timeLeftSec (vps s) \<le> 0 then (NothingToExtend, s)
      else if pointsBalance s < CFG_extend_points then (InsufficientFunds, s)
      else
        (let s1 = s\<lparr>pointsBalance := pointsBalance s - CFG_extend_points,
                    vps := (vps s)\<lparr>timeLeftSec := timeLeftSec (vps s) + CFG_extend_seconds\<rparr>\<rparr>
         in (Completed, pushActivity c ''Extended time'' (- CFG_extend_points) s1)))"

text \<open>
  \<open>tick\<close> (lines 947 to 974). \<open>state.vps.lastTickMs || now\<close> is \<open>now\<close> when the stored
  value is 0; \<open>Math.floor\<close> of the quotient is \<open>div\<close> on \<open>int\<close>.
\<close>

definition tick :: "clock \<Rightarrow> app_state \<Rightarrow> app_state" where
  "tick c s0 =
     (let s = ensureDaily c s0 in
      if status (vps s) = Running \<and> timeLeftSec (vps s) > 0 then
        (let now = nowMs c;
             last = (if lastTickMs (vps s) = 0 then now else lastTickMs (vps s));
             delta = (now - last) div 1000;
             s1 = (if delta > 0
                   then s\<lparr>vps := (vps s)\<lparr>timeLeftSec := max 0 (timeLeftSec (vps s) - delta),
                                          lastTickMs := last + delta * 1000\<rparr>\<rparr>
                   else s)
         in if timeLeftSec (vps s1) \<le> 0
            then s1\<lparr>vps := (vps s1)\<lparr>timeLeftSec := 0, status := Stopped, lastTickMs := nowMs c\<rparr>\<rparr>
            else s1)
      else s)"

subsection \<open>Whole operations and interleavings\<close>

text \<open>
  During a simulated delay the interval timer of line 1008 fires \<open>tick\<close>; \<open>ticks\<close> is the
  list of clock readings at which it does. \<open>runTask\<close>, \<open>createVps\<close> and \<open>stopVps\<close> are the
  \<open>async\<close> functions run from call to end: the first stretch at \<open>c0\<close>, the ticks of the
  delay, and the rest at \<open>c1\<close>.
\<close>

definition ticks_run :: "clock list \<Rightarrow> app_state \<Rightarrow> app_state" where
  "ticks_run cs s = foldl (\<lambda>s' c. tick c s') s cs"

definition runTask ::
    "clock \<Rightarrow> bool \<Rightarrow> string \<Rightarrow> clock list \<Rightarrow> clock \<Rightarrow> app_state \<Rightarrow> outcome \<times> app_state" where
  "runTask c0 loggedIn type ticks c1 s =
     (let (r, s1) = runTask_start c0 loggedIn type s in
      if r \<noteq> Suspended then (r, s1)
      else case CFG_tasks type of
        None \<Rightarrow> (r, s1)
      | Some cfg \<Rightarrow> runTask_resume c1 type cfg (utcDateKey (newDate c0)) (ticks_run ticks s1))"

definition createVps ::
    "clock \<Rightarrow> bool \<Rightarrow> clock list \<Rightarrow> clock \<Rightarrow> app_state \<Rightarrow> outcome \<times> app_state" where
  "createVps c0 loggedIn ticks c1 s =
     (let (r, s1) = createVps_start c0 loggedIn s in
      if r \<noteq> Suspended then (r, s1) else createVps_resume c1 (ticks_run ticks s1))"

definition stopVps ::
    "clock \<Rightarrow> bool \<Rightarrow> clock list \<Rightarrow> clock \<Rightarrow> bool \<Rightarrow> app_state \<Rightarrow> outcome \<times> app_state" where
  "stopVps c0 loggedIn ticks c1 ok s =
     (let (r, s1) = stopVps_start c0 loggedIn s in
      if r \<noteq> Suspended then (r, s1) else stopVps_resume c1 ok (ticks_run ticks s1))"

text \<open>
  Everything that can run against the state, one synchronous stretch at a time. A
  sequence of events is any interleaving of ticks, calls and resumptions; the resumption
  of \<open>runTask\<close> carries the task type and the \<open>today\<close> captured before its \<open>await\<close>.
\<close>

datatype event =
  Tick clock
  | RunTaskStart clock bool string
  | RunTaskResume clock string string
  | CreateVpsStart clock bool
  | CreateVpsResume clock
  | StopVpsStart clock bool
  | StopVpsResume clock bool
  | ExtendVps clock bool

fun step :: "event \<Rightarrow> app_state \<Rightarrow> app_state" where
  "step (Tick c) s = tick c s"
| "step (RunTaskStart c li type) s = snd (runTask_start c li type s)"
| "step (RunTaskResume c type today) s =
     (case CFG_tasks type of
        None \<Rightarrow> s
      | Some cfg \<Rightarrow> snd (runTask_resume c type cfg today s))"
| "step (CreateVpsStart c li) s = snd (createVps_start c li s)"
| "step (CreateVpsResume c) s = snd (createVps_resume c s)"
| "step (StopVpsStart c li) s = snd (stopVps_start c li s)"
| "step (StopVpsResume c ok) s = snd (stopVps_resume c ok s)"
| "step (ExtendVps c li) s = snd (extendVps c li s)"

definition run :: "event list \<Rightarrow> app_state \<Rightarrow> app_state" where
  "run evs s = foldl (\<lambda>s' e. step e s') s evs"

text \<open>Appending a list of entries with \<open>pushActivity\<close>, first to last.\<close>

definition entry_of :: "clock \<times> string \<times> int \<Rightarrow> activity_entry" where
  "entry_of e = (case e of (c, l, d) \<Rightarrow> \<lparr>label = l, delta = d, ts = nowMs c\<rparr>)"

definition push_all :: "(clock \<times> string \<times> int) list \<Rightarrow> app_state \<Rightarrow> app_state" where
  "push_all es s = foldl (\<lambda>s' e. case e of (c, l, d) \<Rightarrow> pushActivity c l d s') s es"

subsection \<open>Concrete inputs\<close>

text \<open>
  Clock readings on two consecutive UTC days and states built from the initial one, used
  to evaluate the operations on explicit inputs.
\<close>

definition day1 :: jsdate where
  "day1 = \<lparr>getUTCFullYear = 2026, getUTCMonth = 0, getUTCDate = 1\<rparr>"

definition day2 :: jsdate where
  "day2 = \<lparr>getUTCFullYear = 2026, getUTCMonth = 0, getUTCDate = 2\<rparr>"

definition at_day1 :: "int \<Rightarrow> clock" where
  \<comment> \<open>\<open>t\<close> milliseconds after 2026-01-01T00:00:00Z\<close>
  "at_day1 t = \<lparr>nowMs = 1767225600000 + t, newDate = day1\<rparr>"

definition at_day2 :: "int \<Rightarrow> clock" where
  \<comment> \<open>\<open>t\<close> milliseconds after 2026-01-02T00:00:00Z\<close>
  "at_day2 t = \<lparr>nowMs = 1767312000000 + t, newDate = day2\<rparr>"

definition running_state :: "int \<Rightarrow> int \<Rightarrow> app_state" where
  \<comment> \<open>a lease with \<open>left\<close> seconds, last reconciled at \<open>at_day1 t0\<close>\<close>
  "running_state left t0 =
     (initial (at_day1 t0))
       \<lparr>vps := \<lparr>status = Running, timeLeftSec = left, lastTickMs = nowMs (at_day1 t0)\<rparr>\<rparr>"

definition with_points :: "int \<Rightarrow> app_state \<Rightarrow> app_state" where
  \<comment> \<open>the state \<open>s\<close> with a balance of \<open>n\<close> points\<close>
  "with_points n s = s\<lparr>pointsBalance := n\<rparr>"

definition stop_demo_state :: app_state where
  \<comment> \<open>a running lease with 100 seconds left and 60 points\<close>
  "stop_demo_state = with_points 60 (running_state 100 1000)"

definition eight_entries :: "(clock \<times> string \<times> int) list" where
  "eight_entries =
     [(at_day1 1, ''a'', 5), (at_day1 2, ''b'', 2), (at_day1 3, ''c'', 10), (at_day1 4, ''d'', -10),
      (at_day1 5, ''e'', 5), (at_day1 6, ''f'', 5), (at_day1 7, ''g'', -50), (at_day1 8, ''h'', 2)]"

definition stored :: "app_state \<Rightarrow> stored_state" where
  \<comment> \<open>what \<open>persist()\<close> writes with \<open>saveJSON\<close> and a later \<open>loadJSON\<close> reads back\<close>
  "stored s =
     \<lparr>st_pointsBalance = pointsBalance s, st_vps = vps s, st_daily = Some (daily s),
      st_tasks = Some (tasks s), st_activity = Some (activity s)\<rparr>"

definition before_midnight :: clock where
  \<comment> \<open>2026-01-01T23:59:59.500Z\<close>
  "before_midnight = at_day1 86399500"

definition after_midnight :: clock where
  \<comment> \<open>2026-01-02T00:00:00.600Z\<close>
  "after_midnight = at_day2 600"

definition next_tick :: clock where
  \<comment> \<open>2026-01-02T00:00:01.000Z\<close>
  "next_tick = at_day2 1000"

definition stale_claim_state :: app_state where
  \<comment> \<open>the state after a daily claim whose delay spans midnight\<close>
  "stale_claim_state =
     snd (runTask before_midnight True ''daily'' [] after_midnight (initial before_midnight))"

definition claimed_state :: app_state where
  \<comment> \<open>the state after a daily claim within 2026-01-01, one tick during its delay\<close>
  "claimed_state =
     snd (runTask (at_day1 2000) True ''daily'' [at_day1 2500] (at_day1 3200) (initial (at_day1 1000)))"

fun claim_videos :: "nat \<Rightarrow> int \<Rightarrow> app_state \<Rightarrow> app_state" where
  \<comment> \<open>\<open>n\<close> video tasks on 2026-01-01, one every two seconds from \<open>at_day1 t\<close>\<close>
  "claim_videos 0 t s = s"
| "claim_videos (Suc n) t s =
     claim_videos n (t + 2000)
       (snd (runTask (at_day1 t) True ''video'' [] (at_day1 (t + 1000)) s))"

definition funded_state :: app_state where
  "funded_state = claim_videos 14 2000 (initial (at_day1 1000))"

definition paused_lease :: app_state where
  \<comment> \<open>14 video tasks, then a lease created, extended once and stopped\<close>
  "paused_lease =
     snd (stopVps (at_day1 41200) True [] (at_day1 41300) True
       (snd (extendVps (at_day1 41100) True
         (snd (createVps (at_day1 40000) True [] (at_day1 41000) funded_state)))))"


definition first_click :: app_state where
  \<comment> \<open>the daily button clicked at 00:00:02.000 UTC on 2026-01-01, and the tick of 00:00:02.500\<close>
  "first_click =
     tick (at_day1 2500) (snd (runTask_start (at_day1 2000) True ''daily'' (initial (at_day1 1000))))"

definition double_claim_events :: "event list" where
  \<comment> \<open>two clicks on the daily button 600 ms apart, each resumed after a delay of 1000 ms\<close>
  "double_claim_events =
     [RunTaskStart (at_day1 2000) True ''daily'',
      Tick (at_day1 2500),
      RunTaskStart (at_day1 2600) True ''daily'',
      RunTaskResume (at_day1 3000) ''daily'' (utcDateKey (newDate (at_day1 2000))),
      RunTaskResume (at_day1 3600) ''daily'' (utcDateKey (newDate (at_day1 2600)))]"

section \<open>Frame and evaluation lemmas\<close>

lemma utcDateKey_nonempty: "utcDateKey d \<noteq> ''''"
  by (simp add: utcDateKey_def Let_def String_of_def)


lemma ensureDaily_frame:
  "pointsBalance (ensureDaily c s) = pointsBalance s"
  "vps (ensureDaily c s) = vps s"
  "tasks (ensureDaily c s) = tasks s"
  "activity (ensureDaily c s) = activity s"
  "sessionEarned (ensureDaily c s) = sessionEarned s"
  by (simp_all add: ensureDaily_def Let_def)

lemma ensureDaily_utcDate: "utcDate (daily (ensureDaily c s)) = utcDateKey (newDate c)"
  by (simp add: ensureDaily_def Let_def)

lemma ensureDaily_same_day: "utcDate (daily s) = utcDateKey (newDate c) \<Longrightarrow> ensureDaily c s = s"
  by (simp add: ensureDaily_def Let_def)

lemma ensureDaily_new_day:
  "utcDate (daily s) \<noteq> utcDateKey (newDate c) \<Longrightarrow>
   daily (ensureDaily c s) = \<lparr>utcDate = utcDateKey (newDate c), earned = 0, dailyClaimedUtcDate = ''''\<rparr>"
  by (simp add: ensureDaily_def Let_def)

lemma pushActivity_frame:
  "pointsBalance (pushActivity c l d s) = pointsBalance s"
  "vps (pushActivity c l d s) = vps s"
  "daily (pushActivity c l d s) = daily s"
  "tasks (pushActivity c l d s) = tasks s"
  "sessionEarned (pushActivity c l d s) = sessionEarned s"
  by (simp_all add: pushActivity_def)

lemma pushActivity_activity:
  "activity (pushActivity c l d s) = take 6 (\<lparr>label = l, delta = d, ts = nowMs c\<rparr> # activity s)"
  by (simp add: pushActivity_def CFG_activityMax_def)

lemma tick_frame:
  "pointsBalance (tick c s) = pointsBalance s"
  "daily (tick c s) = daily (ensureDaily c s)"
  "tasks (tick c s) = tasks s"
  "activity (tick c s) = activity s"
  "sessionEarned (tick c s) = sessionEarned s"
  by (simp_all add: tick_def Let_def ensureDaily_frame)

lemma tick_not_running: "status (vps s) \<noteq> Running \<Longrightarrow> vps (tick c s) = vps s"
  by (simp add: tick_def Let_def ensureDaily_frame)

lemma tick_vps:
  "vps (tick c s) =
     (if status (vps s) = Running \<and> 0 < timeLeftSec (vps s) then
        (let last = (if lastTickMs (vps s) = 0 then nowMs c else lastTickMs (vps s));
             d = (nowMs c - last) div 1000 in
         if d \<le> 0 then vps s
         else if d < timeLeftSec (vps s)
           then (vps s)\<lparr>timeLeftSec := timeLeftSec (vps s) - d, lastTickMs := last + d * 1000\<rparr>
           else (vps s)\<lparr>timeLeftSec := 0, status := Stopped, lastTickMs := nowMs c\<rparr>)
      else vps s)"
  by (simp add: tick_def Let_def ensureDaily_frame max_def)



lemma createVps_start_cases:
  "createVps_start c li s =
     (if \<not> li then (NotLoggedIn, s)
      else if status (vps s) \<noteq> Stopped then (AlreadyActive, s)
      else if pointsBalance s < 10 then (InsufficientFunds, s)
      else (Suspended, s\<lparr>pointsBalance := pointsBalance s - 10,
                          vps := (vps s)\<lparr>status := Provisioning\<rparr>\<rparr>))"
  by (cases "status (vps s)") (simp_all add: createVps_start_def CFG_redeem_points_def)

lemma createVps_resume_balance: "pointsBalance (snd (createVps_resume c s)) = pointsBalance s"
  by (simp add: createVps_resume_def Let_def pushActivity_frame)


lemma extendVps_cases:
  "extendVps c li s =
     (if \<not> li then (NotLoggedIn, s)
      else if timeLeftSec (vps s) \<le> 0 then (NothingToExtend, s)
      else if pointsBalance s < 50 then (InsufficientFunds, s)
      else (Completed,
            pushActivity c ''Extended time'' (- 50)
              (s\<lparr>pointsBalance := pointsBalance s - 50,
                 vps := (vps s)\<lparr>timeLeftSec := timeLeftSec (vps s) + 3600\<rparr>\<rparr>)))"
  by (simp add: extendVps_def CFG_extend_points_def CFG_extend_seconds_def Let_def)



lemma ticks_run_balance: "pointsBalance (ticks_run cs s) = pointsBalance s"
  unfolding ticks_run_def by (induction cs arbitrary: s) (simp_all add: tick_frame)

lemma ticks_run_not_running: "status (vps s) \<noteq> Running \<Longrightarrow> vps (ticks_run cs s) = vps s"
  unfolding ticks_run_def by (induction cs arbitrary: s) (simp_all add: tick_not_running)

lemma createVps_resume_vps:
  "fst (createVps_resume c s) = Completed"
  "vps (snd (createVps_resume c s)) =
     (vps s)\<lparr>status := Running, timeLeftSec := 21600, lastTickMs := nowMs c\<rparr>"
  by (simp_all add: createVps_resume_def Let_def pushActivity_frame CFG_redeem_seconds_def)

lemma stopVps_start_cases:
  "stopVps_start c True s = (if status (vps s) = Running then (Suspended, s) else (NotRunning, s))"
  by (simp add: stopVps_start_def)

lemma stopVps_resume_ok:
  "stopVps_resume c True s =
     (Completed, s\<lparr>vps := (vps s)\<lparr>status := Stopped, lastTickMs := nowMs c\<rparr>\<rparr>)"
  by (simp add: stopVps_resume_def)

lemma take_append_take: "take n (xs @ take n ys) = take n (xs @ ys)"
  by (simp add: min_def)

lemma entry_of_triple: "entry_of (c, l, d) = \<lparr>label = l, delta = d, ts = nowMs c\<rparr>"
  by (simp add: entry_of_def)

lemma push_all_activity:
  "es \<noteq> [] \<Longrightarrow> activity (push_all es s) = take 6 (rev (map entry_of es) @ activity s)"
proof (induction es arbitrary: s)
  case Nil
  then show ?case by simp
next
  case (Cons e es)
  obtain c l d where e: "e = (c, l, d)" by (cases e)
  have unfold: "push_all (e # es) s = push_all es (pushActivity c l d s)"
    by (simp add: push_all_def e)
  show ?case
  proof (cases "es = []")
    case True
    then show ?thesis
      by (simp add: push_all_def e pushActivity_activity entry_of_triple)
  next
    case False
    have "activity (push_all es (pushActivity c l d s))
        = take 6 (rev (map entry_of es) @ take 6 (entry_of e # activity s))"
      by (simp add: Cons.IH [OF False] pushActivity_activity entry_of_triple e)
    also have "\<dots> = take 6 (rev (map entry_of es) @ entry_of e # activity s)"
      by (rule take_append_take)
    finally show ?thesis by (simp add: unfold)
  qed
qed

lemma step_activity_bound:
  "length (activity s) \<le> 6 \<Longrightarrow> length (activity (step e s)) \<le> 6"
proof (cases e)
  case (RunTaskResume c type today)
  assume "length (activity s) \<le> 6"
  then show ?thesis
    by (simp add: RunTaskResume runTask_resume_def Let_def pushActivity_activity
        split: option.splits)
qed (simp_all add: tick_frame runTask_start_def Let_def ensureDaily_frame createVps_start_cases
       createVps_resume_def stopVps_start_def stopVps_resume_def extendVps_cases
       pushActivity_activity split: option.splits)

lemma run_activity_bound:
  "length (activity s) \<le> 6 \<Longrightarrow> length (activity (run evs s)) \<le> 6"
  unfolding run_def
  by (induction evs arbitrary: s) (simp_all add: step_activity_bound)

lemma day_keys: "utcDateKey day1 = ''2026-01-01''" "utcDateKey day2 = ''2026-01-02''"
  by code_simp+

lemma CFG_tasks_daily:
  "CFG_tasks ''daily'' = Some \<lparr>reward = 10, cooldownSec = 0, cfg_label = ''Daily Bonus Achieved''\<rparr>"
  by (simp add: CFG_tasks_def)

lemma runTask_start_daily:
  "runTask_start c True ''daily'' s =
     (if dailyClaimedUtcDate (daily (ensureDaily c s)) = utcDateKey (newDate c)
      then (AlreadyClaimedToday, ensureDaily c s) else (Suspended, ensureDaily c s))"
  by (simp add: runTask_start_def Let_def CFG_tasks_daily)

lemma ticks_run_same_day:
  "utcDate (daily s) = k \<Longrightarrow> \<forall>c\<in>set cs. utcDateKey (newDate c) = k \<Longrightarrow>
   daily (ticks_run cs s) = daily s"
  unfolding ticks_run_def
proof (induction cs arbitrary: s)
  case Nil
  show ?case by simp
next
  case (Cons c cs)
  have same: "ensureDaily c s = s"
    using Cons.prems by (simp add: ensureDaily_same_day)
  have "daily (tick c s) = daily s"
    by (simp add: tick_frame same)
  with Cons show ?case by simp
qed

lemma runTask_resume_daily:
  "utcDate (daily s) = utcDateKey (newDate c) \<Longrightarrow>
   runTask_resume c ''daily'' cfg today s =
     (Completed,
      (pushActivity c (cfg_label cfg) (reward cfg)
        (s\<lparr>pointsBalance := pointsBalance s + reward cfg,
           sessionEarned := sessionEarned s + reward cfg,
           daily := (daily s)\<lparr>earned := earned (daily s) + reward cfg\<rparr>\<rparr>))
      \<lparr>daily := (daily s)\<lparr>earned := earned (daily s) + reward cfg,
                          dailyClaimedUtcDate := today\<rparr>\<rparr>)"
  by (simp add: runTask_resume_def Let_def ensureDaily_def pushActivity_def)

lemma runTask_daily_within_day:
  assumes c1: "utcDateKey (newDate c1) = utcDateKey (newDate c0)"
    and ticks: "\<forall>c\<in>set ticks. utcDateKey (newDate c) = utcDateKey (newDate c0)"
    and free: "dailyClaimedUtcDate (daily (ensureDaily c0 s)) \<noteq> utcDateKey (newDate c0)"
  shows "fst (runTask c0 True ''daily'' ticks c1 s) = Completed"
    and "pointsBalance (snd (runTask c0 True ''daily'' ticks c1 s)) = pointsBalance s + 10"
    and "utcDate (daily (snd (runTask c0 True ''daily'' ticks c1 s))) = utcDateKey (newDate c0)"
    and "dailyClaimedUtcDate (daily (snd (runTask c0 True ''daily'' ticks c1 s)))
           = utcDateKey (newDate c0)"
proof -
  define s1 where "s1 = ensureDaily c0 s"
  define m where "m = ticks_run ticks s1"
  have s1d: "utcDate (daily s1) = utcDateKey (newDate c0)"
    by (simp add: s1_def ensureDaily_utcDate)
  have md: "daily m = daily s1"
    unfolding m_def using s1d ticks by (rule ticks_run_same_day)
  have mk: "utcDate (daily m) = utcDateKey (newDate c1)"
    by (simp add: md s1d c1)
  have mb: "pointsBalance m = pointsBalance s"
    by (simp add: m_def s1_def ticks_run_balance ensureDaily_frame)
  have whole: "runTask c0 True ''daily'' ticks c1 s =
      runTask_resume c1 ''daily'' \<lparr>reward = 10, cooldownSec = 0, cfg_label = ''Daily Bonus Achieved''\<rparr>
        (utcDateKey (newDate c0)) m"
    using free by (simp add: runTask_def runTask_start_daily CFG_tasks_daily s1_def m_def)
  show "fst (runTask c0 True ''daily'' ticks c1 s) = Completed"
    by (simp add: whole runTask_resume_daily [OF mk])
  show "pointsBalance (snd (runTask c0 True ''daily'' ticks c1 s)) = pointsBalance s + 10"
    by (simp add: whole runTask_resume_daily [OF mk] pushActivity_frame mb)
  show "utcDate (daily (snd (runTask c0 True ''daily'' ticks c1 s))) = utcDateKey (newDate c0)"
    by (simp add: whole runTask_resume_daily [OF mk] md s1d)
  show "dailyClaimedUtcDate (daily (snd (runTask c0 True ''daily'' ticks c1 s)))
           = utcDateKey (newDate c0)"
    by (simp add: whole runTask_resume_daily [OF mk])
qed

lemma runTask_daily_claimed:
  assumes "utcDate (daily s) = utcDateKey (newDate c)"
    and "dailyClaimedUtcDate (daily s) = utcDateKey (newDate c)"
  shows "runTask c True ''daily'' ticks c1 s = (AlreadyClaimedToday, s)"
  using assms by (simp add: runTask_def runTask_start_daily ensureDaily_same_day)

lemma daily_once_per_utc_day:
  assumes "utcDateKey (newDate c1) = utcDateKey (newDate c0)"
    and "\<forall>c\<in>set ticks. utcDateKey (newDate c) = utcDateKey (newDate c0)"
    and "fst (runTask c0 True ''daily'' ticks c1 s) = Completed"
  shows "let s2 = snd (runTask c0 True ''daily'' ticks c1 s) in
     pointsBalance s2 = pointsBalance s + 10 \<and>
     dailyClaimedUtcDate (daily s2) = utcDateKey (newDate c0) \<and>
     (utcDateKey (newDate c2) = utcDateKey (newDate c0) \<longrightarrow>
        runTask c2 True ''daily'' ticks2 c3 s2 = (AlreadyClaimedToday, s2)) \<and>
     (utcDateKey (newDate c4) \<noteq> utcDateKey (newDate c0) \<longrightarrow>
        earned (daily (ensureDaily c4 s2)) = 0 \<and>
        dailyClaimedUtcDate (daily (ensureDaily c4 s2)) = '''' \<and>
        utcDate (daily (ensureDaily c4 s2)) = utcDateKey (newDate c4) \<and>
        pointsBalance (ensureDaily c4 s2) = pointsBalance s2 \<and>
        daily (tick c4 s2) = daily (ensureDaily c4 s2) \<and>
        pointsBalance (tick c4 s2) = pointsBalance s2 \<and>
        (utcDateKey (newDate c5) = utcDateKey (newDate c4) \<and>
         (\<forall>c\<in>set ticks4. utcDateKey (newDate c) = utcDateKey (newDate c4)) \<longrightarrow>
           fst (runTask c4 True ''daily'' ticks4 c5 s2) = Completed \<and>
           pointsBalance (snd (runTask c4 True ''daily'' ticks4 c5 s2)) = pointsBalance s2 + 10 \<and>
           dailyClaimedUtcDate (daily (snd (runTask c4 True ''daily'' ticks4 c5 s2)))
             = utcDateKey (newDate c4)))"
proof -
  define s2 where "s2 = snd (runTask c0 True ''daily'' ticks c1 s)"
  have free: "dailyClaimedUtcDate (daily (ensureDaily c0 s)) \<noteq> utcDateKey (newDate c0)"
    using assms(3) by (auto simp add: runTask_def runTask_start_daily split: if_splits)
  note first = runTask_daily_within_day [OF assms(1,2) free]
  have bal: "pointsBalance s2 = pointsBalance s + 10"
    and key: "utcDate (daily s2) = utcDateKey (newDate c0)"
    and claimed: "dailyClaimedUtcDate (daily s2) = utcDateKey (newDate c0)"
    using first by (simp_all add: s2_def)
  have again: "runTask c2 True ''daily'' ticks2 c3 s2 = (AlreadyClaimedToday, s2)"
    if "utcDateKey (newDate c2) = utcDateKey (newDate c0)"
    using that key claimed by (simp add: runTask_daily_claimed)
  have rolled: "earned (daily (ensureDaily c4 s2)) = 0 \<and>
        dailyClaimedUtcDate (daily (ensureDaily c4 s2)) = '''' \<and>
        utcDate (daily (ensureDaily c4 s2)) = utcDateKey (newDate c4) \<and>
        pointsBalance (ensureDaily c4 s2) = pointsBalance s2 \<and>
        daily (tick c4 s2) = daily (ensureDaily c4 s2) \<and>
        pointsBalance (tick c4 s2) = pointsBalance s2 \<and>
        (utcDateKey (newDate c5) = utcDateKey (newDate c4) \<and>
         (\<forall>c\<in>set ticks4. utcDateKey (newDate c) = utcDateKey (newDate c4)) \<longrightarrow>
           fst (runTask c4 True ''daily'' ticks4 c5 s2) = Completed \<and>
           pointsBalance (snd (runTask c4 True ''daily'' ticks4 c5 s2)) = pointsBalance s2 + 10 \<and>
           dailyClaimedUtcDate (daily (snd (runTask c4 True ''daily'' ticks4 c5 s2)))
             = utcDateKey (newDate c4))"
    if new: "utcDateKey (newDate c4) \<noteq> utcDateKey (newDate c0)"
  proof -
    have stale: "utcDate (daily s2) \<noteq> utcDateKey (newDate c4)"
      using new key by simp
    have reset: "daily (ensureDaily c4 s2) =
        \<lparr>utcDate = utcDateKey (newDate c4), earned = 0, dailyClaimedUtcDate = ''''\<rparr>"
      using stale by (rule ensureDaily_new_day)
    have free4: "dailyClaimedUtcDate (daily (ensureDaily c4 s2)) \<noteq> utcDateKey (newDate c4)"
      using utcDateKey_nonempty [of "newDate c4"] by (simp add: reset)
    have next_claim: "fst (runTask c4 True ''daily'' ticks4 c5 s2) = Completed \<and>
           pointsBalance (snd (runTask c4 True ''daily'' ticks4 c5 s2)) = pointsBalance s2 + 10 \<and>
           dailyClaimedUtcDate (daily (snd (runTask c4 True ''daily'' ticks4 c5 s2)))
             = utcDateKey (newDate c4)"
      if "utcDateKey (newDate c5) = utcDateKey (newDate c4)"
        and "\<forall>c\<in>set ticks4. utcDateKey (newDate c) = utcDateKey (newDate c4)"
      using runTask_daily_within_day [OF that free4] by simp
    show ?thesis
      using next_claim by (simp add: reset ensureDaily_frame tick_frame)
  qed
  show ?thesis
    unfolding Let_def s2_def [symmetric]
    using bal claimed again rolled by blast
qed

lemma at_day_keys:
  "utcDateKey (newDate (at_day1 t)) = ''2026-01-01''"
  "utcDateKey (newDate (at_day2 t)) = ''2026-01-02''"
  by (simp_all add: at_day1_def at_day2_def day_keys)

lemma daily_once_per_utc_day_example:
  "pointsBalance claimed_state = 10 \<and>
   dailyClaimedUtcDate (daily claimed_state) = ''2026-01-01'' \<and>
   runTask (at_day1 5000) True ''daily'' [at_day1 5500] (at_day1 6000) claimed_state
     = (AlreadyClaimedToday, claimed_state) \<and>
   earned (daily (ensureDaily (at_day2 3600000) claimed_state)) = 0 \<and>
   dailyClaimedUtcDate (daily (ensureDaily (at_day2 3600000) claimed_state)) = '''' \<and>
   pointsBalance (ensureDaily (at_day2 3600000) claimed_state) = 10 \<and>
   fst (runTask (at_day2 3600000) True ''daily'' [at_day2 3600500] (at_day2 3601000)
          claimed_state) = Completed \<and>
   pointsBalance (snd (runTask (at_day2 3600000) True ''daily'' [at_day2 3600500]
          (at_day2 3601000) claimed_state)) = 20 \<and>
   dailyClaimedUtcDate (daily (snd (runTask (at_day2 3600000) True ''daily'' [at_day2 3600500]
          (at_day2 3601000) claimed_state))) = ''2026-01-02''"
proof -
  have h1: "utcDateKey (newDate (at_day1 3200)) = utcDateKey (newDate (at_day1 2000))"
    by (simp add: at_day_keys)
  have h2: "\<forall>c\<in>set [at_day1 2500]. utcDateKey (newDate c) = utcDateKey (newDate (at_day1 2000))"
    by (simp add: at_day_keys)
  have free: "dailyClaimedUtcDate (daily (ensureDaily (at_day1 2000) (initial (at_day1 1000))))
      \<noteq> utcDateKey (newDate (at_day1 2000))"
    by (simp add: ensureDaily_def initial_def at_day_keys)
  have h3: "fst (runTask (at_day1 2000) True ''daily'' [at_day1 2500] (at_day1 3200)
      (initial (at_day1 1000))) = Completed"
    using h1 h2 free by (rule runTask_daily_within_day)
  have a: "pointsBalance (initial (at_day1 1000)) = 0"
    by (simp add: initial_def)
  show ?thesis
    using daily_once_per_utc_day [OF h1 h2 h3, of "at_day1 5000" "[at_day1 5500]" "at_day1 6000"
        "at_day2 3600000" "at_day2 3601000" "[at_day2 3600500]"] a
    by (simp add: Let_def claimed_state_def [symmetric] at_day_keys)
qed

lemma stale_claim_daily:
  "fst (runTask before_midnight True ''daily'' [] after_midnight (initial before_midnight))
     = Completed"
  "daily (snd (runTask before_midnight True ''daily'' [] after_midnight (initial before_midnight)))
     = \<lparr>utcDate = ''2026-01-02'', earned = 10, dailyClaimedUtcDate = ''2026-01-01''\<rparr>"
  by (simp_all add: runTask_def runTask_start_daily CFG_tasks_daily ticks_run_def
      runTask_resume_def ensureDaily_def pushActivity_def initial_def Let_def
      before_midnight_def after_midnight_def at_day_keys)

lemma CFG_tasks_video:
  "CFG_tasks ''video'' = Some \<lparr>reward = 5, cooldownSec = 0, cfg_label = ''Watched Ad''\<rparr>"
  by (simp add: CFG_tasks_def)

lemma runTask_video_day1:
  assumes "utcDate (daily s) = ''2026-01-01''" and "tasks s ''video'' = Some u"
    and "u \<le> nowMs (at_day1 t)"
  shows "pointsBalance (snd (runTask (at_day1 t) True ''video'' [] (at_day1 (t + 1000)) s))
           = pointsBalance s + 5"
    and "vps (snd (runTask (at_day1 t) True ''video'' [] (at_day1 (t + 1000)) s)) = vps s"
    and "utcDate (daily (snd (runTask (at_day1 t) True ''video'' [] (at_day1 (t + 1000)) s)))
           = ''2026-01-01''"
    and "tasks (snd (runTask (at_day1 t) True ''video'' [] (at_day1 (t + 1000)) s)) ''video''
           = Some (nowMs (at_day1 (t + 1000)))"
  using assms
  by (simp_all add: runTask_def runTask_start_def runTask_resume_def CFG_tasks_video Let_def
      ticks_run_def ensureDaily_def pushActivity_def at_day1_def day_keys)

lemma claim_videos_effect:
  "utcDate (daily s) = ''2026-01-01'' \<Longrightarrow> tasks s ''video'' = Some u \<Longrightarrow>
   u \<le> nowMs (at_day1 t) \<Longrightarrow>
   pointsBalance (claim_videos n t s) = pointsBalance s + 5 * int n \<and>
   vps (claim_videos n t s) = vps s"
proof (induction n arbitrary: s t u)
  case 0
  show ?case by simp
next
  case (Suc n)
  let ?s' = "snd (runTask (at_day1 t) True ''video'' [] (at_day1 (t + 1000)) s)"
  note one = runTask_video_day1 [OF Suc.prems]
  have "pointsBalance (claim_videos n (t + 2000) ?s') = pointsBalance ?s' + 5 * int n \<and>
      vps (claim_videos n (t + 2000) ?s') = vps ?s'"
    by (rule Suc.IH [OF one(3) one(4)]) (simp add: at_day1_def)
  then show ?case by (simp add: one)
qed

lemma funded_state_fields:
  "pointsBalance funded_state = 70"
  "vps funded_state = \<lparr>status = Stopped, timeLeftSec = 0, lastTickMs = 1767225601000\<rparr>"
proof -
  have "pointsBalance funded_state = pointsBalance (initial (at_day1 1000)) + 5 * int 14 \<and>
      vps funded_state = vps (initial (at_day1 1000))"
    unfolding funded_state_def
    by (rule claim_videos_effect [where u = 0])
      (simp_all add: initial_def initial_tasks_def at_day1_def day_keys)
  then show "pointsBalance funded_state = 70"
    and "vps funded_state = \<lparr>status = Stopped, timeLeftSec = 0, lastTickMs = 1767225601000\<rparr>"
    by (simp_all add: initial_def at_day1_def)
qed

lemma createVps_no_ticks:
  "status (vps s) = Stopped \<Longrightarrow> 10 \<le> pointsBalance s \<Longrightarrow>
   pointsBalance (snd (createVps c0 True [] c1 s)) = pointsBalance s - 10 \<and>
   vps (snd (createVps c0 True [] c1 s)) =
     \<lparr>status = Running, timeLeftSec = 21600, lastTickMs = nowMs c1\<rparr>"
  by (simp add: createVps_def createVps_start_cases ticks_run_def createVps_resume_vps
      createVps_resume_balance)

lemma paused_lease_fields:
  "pointsBalance paused_lease = 10"
  "vps paused_lease = \<lparr>status = Stopped, timeLeftSec = 25200, lastTickMs = 1767225641300\<rparr>"
proof -
  define a where "a = snd (createVps (at_day1 40000) True [] (at_day1 41000) funded_state)"
  define b where "b = snd (extendVps (at_day1 41100) True a)"
  have a: "pointsBalance a = 60"
    "vps a = \<lparr>status = Running, timeLeftSec = 21600, lastTickMs = 1767225641000\<rparr>"
    using createVps_no_ticks [of funded_state "at_day1 40000" "at_day1 41000"]
    by (simp_all add: a_def funded_state_fields at_day1_def)
  have b: "pointsBalance b = 10"
    "vps b = \<lparr>status = Running, timeLeftSec = 25200, lastTickMs = 1767225641000\<rparr>"
    by (simp_all add: b_def extendVps_cases a pushActivity_frame)
  have p: "paused_lease = snd (stopVps (at_day1 41200) True [] (at_day1 41300) True b)"
    by (simp add: paused_lease_def a_def b_def)
  show "pointsBalance paused_lease = 10"
    and "vps paused_lease = \<lparr>status = Stopped, timeLeftSec = 25200, lastTickMs = 1767225641300\<rparr>"
    by (simp_all add: p stopVps_def stopVps_start_cases stopVps_resume_ok ticks_run_def b
        at_day1_def)
qed

lemma step_timeLeft:
  "timeLeftSec (vps (step (RunTaskStart c li type) s)) = timeLeftSec (vps s)"
  "timeLeftSec (vps (step (RunTaskResume c type today) s)) = timeLeftSec (vps s)"
  "timeLeftSec (vps (step (CreateVpsStart c li) s)) = timeLeftSec (vps s)"
  "timeLeftSec (vps (step (StopVpsStart c li) s)) = timeLeftSec (vps s)"
  "timeLeftSec (vps (step (StopVpsResume c ok) s)) = timeLeftSec (vps s)"
  "timeLeftSec (vps s) \<le> timeLeftSec (vps (step (ExtendVps c li) s))"
  by (simp_all add: runTask_start_def runTask_resume_def Let_def ensureDaily_frame
      pushActivity_frame createVps_start_cases stopVps_start_def stopVps_resume_def
      extendVps_cases split: option.splits)



lemma runTask_start_state: "snd (runTask_start c li type s) = ensureDaily c s"
  by (simp add: runTask_start_def Let_def split: option.splits)





lemma first_click_daily:
  "daily first_click = \<lparr>utcDate = ''2026-01-01'', earned = 0, dailyClaimedUtcDate = ''''\<rparr>"
  "pointsBalance first_click = 0"
  by (simp_all add: first_click_def tick_frame runTask_start_state ensureDaily_frame
      ensureDaily_def initial_def at_day_keys)

lemma runTask_start_daily_overlap:
  assumes "fst (runTask_start c0 True ''daily'' s) = Suspended"
    and "utcDateKey (newDate c1) = utcDateKey (newDate c0)"
    and "\<forall>c\<in>set ticks. utcDateKey (newDate c) = utcDateKey (newDate c0)"
  shows "fst (runTask_start c1 True ''daily''
           (ticks_run ticks (snd (runTask_start c0 True ''daily'' s)))) = Suspended"
proof -
  define s1 where "s1 = ensureDaily c0 s"
  have free: "dailyClaimedUtcDate (daily s1) \<noteq> utcDateKey (newDate c0)"
    using assms(1) by (auto simp add: runTask_start_daily s1_def split: if_splits)
  have k: "utcDate (daily s1) = utcDateKey (newDate c0)"
    by (simp add: s1_def ensureDaily_utcDate)
  have d: "daily (ticks_run ticks s1) = daily s1"
    using k assms(3) by (rule ticks_run_same_day)
  have same: "ensureDaily c1 (ticks_run ticks s1) = ticks_run ticks s1"
    by (rule ensureDaily_same_day) (simp add: d k assms(2))
  have "snd (runTask_start c0 True ''daily'' s) = s1"
    by (simp add: runTask_start_state s1_def)
  then show ?thesis
    using free by (simp add: runTask_start_daily same d assms(2))
qed

lemma double_claim_run:
  "run double_claim_events (initial (at_day1 1000)) =
     snd (runTask_resume (at_day1 3600) ''daily''
            \<lparr>reward = 10, cooldownSec = 0, cfg_label = ''Daily Bonus Achieved''\<rparr> ''2026-01-01''
       (snd (runTask_resume (at_day1 3000) ''daily''
            \<lparr>reward = 10, cooldownSec = 0, cfg_label = ''Daily Bonus Achieved''\<rparr> ''2026-01-01''
         (snd (runTask_start (at_day1 2600) True ''daily'' first_click)))))"
  by (simp add: run_def double_claim_events_def first_click_def CFG_tasks_daily at_day_keys)

section \<open>The claims\<close>

subsection \<open>C1: the reconciliation tick\<close>

text \<open>
  C1 as stated says that a tick on a running lease always advances \<open>lastTickMs\<close> by the
  whole elapsed seconds. When the lease expires in the tick, lines 961 to 965 set
  \<open>lastTickMs\<close> to the current time instead: with 10 seconds left and the clock 10500
  ms past the last reconciliation, the tick stores the current time and not the last
  reconciliation plus 10000 ms.
\<close>

theorem tick_expiry_lastTick_counterexample:
  "status (vps (running_state 10 1000)) = Running \<and>
   lastTickMs (vps (tick (at_day1 11500) (running_state 10 1000))) \<noteq>
     lastTickMs (vps (running_state 10 1000))
       + 1000 * ((nowMs (at_day1 11500) - lastTickMs (vps (running_state 10 1000))) div 1000)"
  by (simp add: tick_vps running_state_def at_day1_def)

text \<open>
  C1, amended: for a running lease with time left and a last reconciliation after the
  epoch, one tick subtracts the whole elapsed seconds \<open>d\<close> (none when the clock is behind)
  from \<open>timeLeftSec\<close>, floored at 0. If time remains, the lease stays running and
  \<open>lastTickMs\<close> advances by exactly \<open>d\<close> seconds, so the remainder below a second is
  carried; if no time remains, the lease is stopped in the same tick and \<open>lastTickMs\<close>
  is the current time. With 3600 seconds left, a tick after 1500 elapsed seconds leaves
  2100 and a running lease, and a tick after 2200 more leaves 0 and a stopped lease.
\<close>

theorem tick_reconcile:
  assumes "status (vps s) = Running" and "0 < timeLeftSec (vps s)" and "0 < lastTickMs (vps s)"
  shows "let d = max 0 ((nowMs c - lastTickMs (vps s)) div 1000); v = vps (tick c s) in
     timeLeftSec v = max 0 (timeLeftSec (vps s) - d) \<and>
     (d < timeLeftSec (vps s) \<longrightarrow>
        status v = Running \<and> lastTickMs v = lastTickMs (vps s) + d * 1000) \<and>
     (timeLeftSec (vps s) \<le> d \<longrightarrow> status v = Stopped \<and> lastTickMs v = nowMs c) \<and>
     (timeLeftSec (vps s) = 3600 \<and> (nowMs c - lastTickMs (vps s)) div 1000 = 1500 \<and>
      (nowMs c2 - (lastTickMs (vps s) + 1500 * 1000)) div 1000 = 2200 \<longrightarrow>
        timeLeftSec v = 2100 \<and> status v = Running \<and>
        timeLeftSec (vps (tick c2 (tick c s))) = 0 \<and>
        status (vps (tick c2 (tick c s))) = Stopped)"
proof -
  define d where "d = max 0 ((nowMs c - lastTickMs (vps s)) div 1000)"
  have first: "vps (tick c s) =
      (if d \<le> 0 then vps s
       else if d < timeLeftSec (vps s)
         then (vps s)\<lparr>timeLeftSec := timeLeftSec (vps s) - d,
                       lastTickMs := lastTickMs (vps s) + d * 1000\<rparr>
         else (vps s)\<lparr>timeLeftSec := 0, status := Stopped, lastTickMs := nowMs c\<rparr>)"
    using assms by (simp add: tick_vps Let_def d_def max_def)
  have d0: "0 \<le> d" by (simp add: d_def)
  have a: "timeLeftSec (vps (tick c s)) = max 0 (timeLeftSec (vps s) - d)"
    using assms(2) d0 by (simp add: first max_def)
  have b: "d < timeLeftSec (vps s) \<longrightarrow>
      status (vps (tick c s)) = Running \<and>
      lastTickMs (vps (tick c s)) = lastTickMs (vps s) + d * 1000"
    using assms(1) d0 by (auto simp add: first)
  have c: "timeLeftSec (vps s) \<le> d \<longrightarrow>
      status (vps (tick c s)) = Stopped \<and> lastTickMs (vps (tick c s)) = nowMs c"
    using assms(2) d0 by (auto simp add: first)
  have e: "timeLeftSec (vps (tick c2 (tick c s))) = 0 \<and>
      status (vps (tick c2 (tick c s))) = Stopped"
    if h: "timeLeftSec (vps s) = 3600" "(nowMs c - lastTickMs (vps s)) div 1000 = 1500"
      "(nowMs c2 - (lastTickMs (vps s) + 1500 * 1000)) div 1000 = 2200"
  proof -
    have d1500: "d = 1500" using h(2) by (simp add: d_def)
    have v1: "vps (tick c s) =
        (vps s)\<lparr>timeLeftSec := 2100, lastTickMs := lastTickMs (vps s) + 1500 * 1000\<rparr>"
      using h(1) by (simp add: first d1500)
    show ?thesis
      using assms(1,3) h(3) by (simp add: tick_vps [of c2] v1 Let_def)
  qed
  have f: "timeLeftSec (vps (tick c s)) = 2100 \<and> status (vps (tick c s)) = Running"
    if h: "timeLeftSec (vps s) = 3600" "(nowMs c - lastTickMs (vps s)) div 1000 = 1500"
  proof -
    have "d = 1500" using h(2) by (simp add: d_def)
    then show ?thesis using h(1) assms(1) by (simp add: first)
  qed
  show ?thesis
    unfolding Let_def d_def [symmetric] using a b c e f by blast
qed

text \<open>
  The theorem at a lease with 3600 seconds left, ticked 1500300 ms after its last
  reconciliation and again 2200600 ms later.
\<close>

theorem tick_reconcile_witness:
  "timeLeftSec (vps (tick (at_day1 2500300) (running_state 3600 1000000))) = 2100 \<and>
   status (vps (tick (at_day1 2500300) (running_state 3600 1000000))) = Running \<and>
   lastTickMs (vps (tick (at_day1 2500300) (running_state 3600 1000000))) = 1767228100000 \<and>
   timeLeftSec (vps (tick (at_day1 4700900) (tick (at_day1 2500300) (running_state 3600 1000000)))) = 0 \<and>
   status (vps (tick (at_day1 4700900) (tick (at_day1 2500300) (running_state 3600 1000000)))) = Stopped"
proof -
  have h1: "status (vps (running_state 3600 1000000)) = Running"
    and h2: "0 < timeLeftSec (vps (running_state 3600 1000000))"
    and h3: "0 < lastTickMs (vps (running_state 3600 1000000))"
    by (simp_all add: running_state_def at_day1_def)
  show ?thesis
    using tick_reconcile [OF h1 h2 h3, of "at_day1 2500300" "at_day1 4700900"]
    by (simp add: Let_def running_state_def at_day1_def)
qed

subsection \<open>C2: the points balance never goes negative\<close>



subsection \<open>C3: the daily bonus, once per UTC date-key\<close>

text \<open>
  C3 says that the daily bonus succeeds at most once per UTC date-key. \<open>runTask\<close>
  tests \<open>dailyClaimedUtcDate\<close> in line 826 and writes it only in line 853, after the
  \<open>await\<close>, without testing again; the button it disables in line 841 is enabled again
  by the \<open>renderTasks\<close> of the next tick (lines 772 to 773). On 2026-01-01, from the
  initial state, a click at 00:00:02.000, the tick of 00:00:02.500 and a second click at
  00:00:02.600 both pass the guard; resumed at 00:00:03.000 and 00:00:03.600, both
  credit 10 points: the balance is 20 and \<open>earned\<close> is 20 under one date-key.
\<close>

theorem runTask_daily_double_claim:
  "utcDateKey (newDate (at_day1 2000)) = ''2026-01-01'' \<and>
   utcDateKey (newDate (at_day1 2600)) = ''2026-01-01'' \<and>
   utcDateKey (newDate (at_day1 3000)) = ''2026-01-01'' \<and>
   utcDateKey (newDate (at_day1 3600)) = ''2026-01-01'' \<and>
   fst (runTask_start (at_day1 2000) True ''daily'' (initial (at_day1 1000))) = Suspended \<and>
   fst (runTask_start (at_day1 2600) True ''daily'' first_click) = Suspended \<and>
   pointsBalance (initial (at_day1 1000)) = 0 \<and>
   pointsBalance (run double_claim_events (initial (at_day1 1000))) = 20 \<and>
   earned (daily (run double_claim_events (initial (at_day1 1000)))) = 20 \<and>
   dailyClaimedUtcDate (daily (run double_claim_events (initial (at_day1 1000)))) = ''2026-01-01''"
proof -
  have start1: "fst (runTask_start (at_day1 2000) True ''daily'' (initial (at_day1 1000)))
      = Suspended"
    by (simp add: runTask_start_daily ensureDaily_def initial_def at_day_keys)
  have start2: "runTask_start (at_day1 2600) True ''daily'' first_click = (Suspended, first_click)"
    by (simp add: runTask_start_daily ensureDaily_def first_click_daily at_day_keys)
  define mid where "mid = snd (runTask_resume (at_day1 3000) ''daily''
      \<lparr>reward = 10, cooldownSec = 0, cfg_label = ''Daily Bonus Achieved''\<rparr> ''2026-01-01''
      first_click)"
  have k1: "utcDate (daily first_click) = utcDateKey (newDate (at_day1 3000))"
    by (simp add: first_click_daily at_day_keys)
  have mid_fields: "pointsBalance mid = 10"
    "daily mid = \<lparr>utcDate = ''2026-01-01'', earned = 10, dailyClaimedUtcDate = ''2026-01-01''\<rparr>"
    by (simp_all add: mid_def runTask_resume_daily [OF k1] first_click_daily pushActivity_frame)
  have k2: "utcDate (daily mid) = utcDateKey (newDate (at_day1 3600))"
    by (simp add: mid_fields at_day_keys)
  have final: "run double_claim_events (initial (at_day1 1000)) =
      snd (runTask_resume (at_day1 3600) ''daily''
        \<lparr>reward = 10, cooldownSec = 0, cfg_label = ''Daily Bonus Achieved''\<rparr> ''2026-01-01'' mid)"
    by (simp add: double_claim_run start2 mid_def)
  have bal: "pointsBalance (run double_claim_events (initial (at_day1 1000))) = 20"
    and ear: "earned (daily (run double_claim_events (initial (at_day1 1000)))) = 20"
    and cl: "dailyClaimedUtcDate (daily (run double_claim_events (initial (at_day1 1000))))
      = ''2026-01-01''"
    by (simp_all add: final runTask_resume_daily [OF k2] mid_fields pushActivity_frame)
  have zero: "pointsBalance (initial (at_day1 1000)) = 0"
    by (simp add: initial_def)
  show ?thesis
    using start1 start2 bal ear cl zero by (simp add: at_day_keys)
qed

subsection \<open>C4: the date-key stored by a daily claim\<close>

text \<open>
  C4 says that \<open>runTask\<close> stores as \<open>dailyClaimedUtcDate\<close> the date-key of the moment
  of the write. The code stores the constant \<open>today\<close> of line 824, computed before the
  \<open>await\<close>, although it calls \<open>ensureDaily\<close> again after the delay (line 848) and
  reads \<open>nowMs()\<close> afresh for the cooldown of the other tasks (line 855). A claim
  started at 23:59:59.500 UTC on 2026-01-01 and resumed at 00:00:00.600 on 2026-01-02
  leaves \<open>utcDate = 2026-01-02\<close> and \<open>dailyClaimedUtcDate = 2026-01-01\<close>.
\<close>

theorem runTask_daily_stores_cached_today:
  "fst (runTask before_midnight True ''daily'' [] after_midnight (initial before_midnight))
     = Completed \<and>
   utcDateKey (newDate before_midnight) = ''2026-01-01'' \<and>
   utcDateKey (newDate after_midnight) = ''2026-01-02'' \<and>
   utcDate (daily (snd (runTask before_midnight True ''daily'' [] after_midnight
     (initial before_midnight)))) = ''2026-01-02'' \<and>
   dailyClaimedUtcDate (daily (snd (runTask before_midnight True ''daily'' [] after_midnight
     (initial before_midnight)))) = ''2026-01-01''"
proof -
  have k1: "utcDateKey (newDate before_midnight) = ''2026-01-01''"
    by (simp add: before_midnight_def at_day_keys)
  have k2: "utcDateKey (newDate after_midnight) = ''2026-01-02''"
    by (simp add: after_midnight_def at_day_keys)
  show ?thesis
    by (simp add: stale_claim_daily k1 k2)
qed

subsection \<open>C5: creating a lease\<close>

text \<open>
  C5: for a logged-in user, \<open>createVps\<close> on a provisioning or running lease returns
  \<open>AlreadyActive\<close> and leaves the state as it was; on a stopped lease it returns
  \<open>InsufficientFunds\<close> exactly when the balance is below 10. With a balance of exactly
  10 the first stretch debits the balance to 0 and sets the status to \<open>Provisioning\<close>;
  the ticks of the delay change neither (nothing gives the points back); the second
  stretch ends with status \<open>Running\<close>, 21600 seconds left and \<open>lastTickMs\<close> the current
  time.
\<close>

theorem createVps_contract:
  "(status (vps s) = Provisioning \<or> status (vps s) = Running \<longrightarrow>
      createVps c0 True ticks c1 s = (AlreadyActive, s)) \<and>
   (status (vps s) = Stopped \<longrightarrow>
      (fst (createVps c0 True ticks c1 s) = InsufficientFunds) = (pointsBalance s < 10) \<and>
      (pointsBalance s < 10 \<longrightarrow> snd (createVps c0 True ticks c1 s) = s)) \<and>
   (status (vps s) = Stopped \<and> pointsBalance s = CFG_redeem_points \<longrightarrow>
      fst (createVps_start c0 True s) = Suspended \<and>
      pointsBalance (snd (createVps_start c0 True s)) = 0 \<and>
      status (vps (snd (createVps_start c0 True s))) = Provisioning \<and>
      pointsBalance (ticks_run ticks (snd (createVps_start c0 True s))) = 0 \<and>
      status (vps (ticks_run ticks (snd (createVps_start c0 True s)))) = Provisioning \<and>
      fst (createVps c0 True ticks c1 s) = Completed \<and>
      pointsBalance (snd (createVps c0 True ticks c1 s)) = 0 \<and>
      status (vps (snd (createVps c0 True ticks c1 s))) = Running \<and>
      timeLeftSec (vps (snd (createVps c0 True ticks c1 s))) = 21600 \<and>
      lastTickMs (vps (snd (createVps c0 True ticks c1 s))) = nowMs c1)"
proof -
  have active: "createVps c0 True ticks c1 s = (AlreadyActive, s)"
    if "status (vps s) = Provisioning \<or> status (vps s) = Running"
    using that by (auto simp add: createVps_def createVps_start_cases)
  have poor: "(fst (createVps c0 True ticks c1 s) = InsufficientFunds) = (pointsBalance s < 10)
      \<and> (pointsBalance s < 10 \<longrightarrow> snd (createVps c0 True ticks c1 s) = s)"
    if "status (vps s) = Stopped"
    using that by (simp add: createVps_def createVps_start_cases createVps_resume_vps)
  have exact: "fst (createVps_start c0 True s) = Suspended \<and>
      pointsBalance (snd (createVps_start c0 True s)) = 0 \<and>
      status (vps (snd (createVps_start c0 True s))) = Provisioning \<and>
      pointsBalance (ticks_run ticks (snd (createVps_start c0 True s))) = 0 \<and>
      status (vps (ticks_run ticks (snd (createVps_start c0 True s)))) = Provisioning \<and>
      fst (createVps c0 True ticks c1 s) = Completed \<and>
      pointsBalance (snd (createVps c0 True ticks c1 s)) = 0 \<and>
      status (vps (snd (createVps c0 True ticks c1 s))) = Running \<and>
      timeLeftSec (vps (snd (createVps c0 True ticks c1 s))) = 21600 \<and>
      lastTickMs (vps (snd (createVps c0 True ticks c1 s))) = nowMs c1"
    if h: "status (vps s) = Stopped \<and> pointsBalance s = CFG_redeem_points"
  proof -
    define s1 where "s1 = s\<lparr>pointsBalance := pointsBalance s - 10,
                            vps := (vps s)\<lparr>status := Provisioning\<rparr>\<rparr>"
    have start: "createVps_start c0 True s = (Suspended, s1)"
      using h by (simp add: createVps_start_cases CFG_redeem_points_def s1_def)
    have s1b: "pointsBalance s1 = 0" and s1s: "status (vps s1) = Provisioning"
      using h by (simp_all add: s1_def CFG_redeem_points_def)
    have mid: "pointsBalance (ticks_run ticks s1) = 0"
      "status (vps (ticks_run ticks s1)) = Provisioning"
      using s1b s1s by (simp_all add: ticks_run_balance ticks_run_not_running)
    have whole: "createVps c0 True ticks c1 s = createVps_resume c1 (ticks_run ticks s1)"
      by (simp add: createVps_def start)
    show ?thesis
      using s1b s1s mid
      by (simp add: start whole createVps_resume_vps createVps_resume_balance)
  qed
  show ?thesis using active poor exact by blast
qed

text \<open>
  The theorem at a running lease, at the initial state with balance 0 and at the
  initial state with balance 10, with one tick during the delay.
\<close>

theorem createVps_contract_witness:
  "createVps (at_day1 2000) True [at_day1 3000] (at_day1 3200) (running_state 100 1000)
     = (AlreadyActive, running_state 100 1000) \<and>
   fst (createVps (at_day1 2000) True [at_day1 3000] (at_day1 3200) (initial (at_day1 1000)))
     = InsufficientFunds \<and>
   snd (createVps (at_day1 2000) True [at_day1 3000] (at_day1 3200) (initial (at_day1 1000)))
     = initial (at_day1 1000) \<and>
   fst (createVps (at_day1 2000) True [at_day1 3000] (at_day1 3200)
          (with_points 10 (initial (at_day1 1000)))) = Completed \<and>
   pointsBalance (snd (createVps (at_day1 2000) True [at_day1 3000] (at_day1 3200)
          (with_points 10 (initial (at_day1 1000))))) = 0 \<and>
   status (vps (snd (createVps (at_day1 2000) True [at_day1 3000] (at_day1 3200)
          (with_points 10 (initial (at_day1 1000)))))) = Running \<and>
   timeLeftSec (vps (snd (createVps (at_day1 2000) True [at_day1 3000] (at_day1 3200)
          (with_points 10 (initial (at_day1 1000)))))) = 21600 \<and>
   lastTickMs (vps (snd (createVps (at_day1 2000) True [at_day1 3000] (at_day1 3200)
          (with_points 10 (initial (at_day1 1000)))))) = 1767225603200"
proof -
  have a: "status (vps (running_state 100 1000)) = Running"
    by (simp add: running_state_def)
  have b: "status (vps (initial (at_day1 1000))) = Stopped"
    "pointsBalance (initial (at_day1 1000)) < 10"
    by (simp_all add: initial_def)
  have c: "status (vps (with_points 10 (initial (at_day1 1000)))) = Stopped"
    "pointsBalance (with_points 10 (initial (at_day1 1000))) = CFG_redeem_points"
    by (simp_all add: initial_def with_points_def CFG_redeem_points_def)
  have d: "nowMs (at_day1 3200) = 1767225603200"
    by (simp add: at_day1_def)
  show ?thesis
    using createVps_contract [of "running_state 100 1000" "at_day1 2000" "[at_day1 3000]" "at_day1 3200"]
      createVps_contract [of "initial (at_day1 1000)" "at_day1 2000" "[at_day1 3000]" "at_day1 3200"]
      createVps_contract [of "with_points 10 (initial (at_day1 1000))" "at_day1 2000" "[at_day1 3000]" "at_day1 3200"]
      a b c d
    by simp
qed

subsection \<open>C6: stopping, then extending\<close>

text \<open>
  C6: for a logged-in user, \<open>stopVps\<close> returns \<open>NotRunning\<close>, changing nothing, exactly
  when the lease is not running. Confirmed on a running lease, it ends with status
  \<open>Stopped\<close>, \<open>timeLeftSec\<close> as the ticks before the confirmation left it, \<open>lastTickMs\<close>
  the current time and the balance untouched; later ticks leave the lease as it is. On
  a stopped lease with time left and at least 50 points, \<open>extendVps\<close> takes 50 points,
  adds 3600 seconds and leaves the status \<open>Stopped\<close>. \<open>extendVps\<close> returns
  \<open>NothingToExtend\<close> exactly when \<open>timeLeftSec\<close> is at most 0.
\<close>

theorem stop_then_extend:
  "(status (vps s) \<noteq> Running \<longrightarrow> stopVps c0 True ticks c1 ok s = (NotRunning, s)) \<and>
   (fst (stopVps c0 True ticks c1 ok s) = NotRunning) = (status (vps s) \<noteq> Running) \<and>
   (status (vps s) = Running \<longrightarrow>
      (let s2 = snd (stopVps c0 True ticks c1 True s) in
       fst (stopVps c0 True ticks c1 True s) = Completed \<and>
       status (vps s2) = Stopped \<and>
       timeLeftSec (vps s2) = timeLeftSec (vps (ticks_run ticks s)) \<and>
       lastTickMs (vps s2) = nowMs c1 \<and>
       pointsBalance s2 = pointsBalance s \<and>
       vps (ticks_run later s2) = vps s2 \<and>
       (0 < timeLeftSec (vps s2) \<and> 50 \<le> pointsBalance s2 \<longrightarrow>
          fst (extendVps c2 True s2) = Completed \<and>
          pointsBalance (snd (extendVps c2 True s2)) = pointsBalance s2 - 50 \<and>
          timeLeftSec (vps (snd (extendVps c2 True s2))) = timeLeftSec (vps s2) + 3600 \<and>
          status (vps (snd (extendVps c2 True s2))) = Stopped))) \<and>
   (status (vps s) = Stopped \<and> 0 < timeLeftSec (vps s) \<and> 50 \<le> pointsBalance s \<longrightarrow>
      fst (extendVps c2 True s) = Completed \<and>
      pointsBalance (snd (extendVps c2 True s)) = pointsBalance s - 50 \<and>
      timeLeftSec (vps (snd (extendVps c2 True s))) = timeLeftSec (vps s) + 3600 \<and>
      status (vps (snd (extendVps c2 True s))) = Stopped) \<and>
   (fst (extendVps c2 True s) = NothingToExtend) = (timeLeftSec (vps s) \<le> 0)"
proof -
  have ext: "fst (extendVps c2 True t) = Completed \<and>
      pointsBalance (snd (extendVps c2 True t)) = pointsBalance t - 50 \<and>
      timeLeftSec (vps (snd (extendVps c2 True t))) = timeLeftSec (vps t) + 3600 \<and>
      status (vps (snd (extendVps c2 True t))) = Stopped"
    if "status (vps t) = Stopped" "0 < timeLeftSec (vps t)" "50 \<le> pointsBalance t" for t
    using that by (simp add: extendVps_cases pushActivity_frame)
  have not_running: "stopVps c0 True ticks c1 ok s = (NotRunning, s)"
    if "status (vps s) \<noteq> Running"
    using that by (simp add: stopVps_def stopVps_start_cases)
  have stop_iff: "(fst (stopVps c0 True ticks c1 ok s) = NotRunning) = (status (vps s) \<noteq> Running)"
    by (simp add: stopVps_def stopVps_start_cases stopVps_resume_def)
  have extend_iff: "(fst (extendVps c2 True s) = NothingToExtend) = (timeLeftSec (vps s) \<le> 0)"
    by (simp add: extendVps_cases)
  have stop: "status (vps s) = Running \<longrightarrow>
      (let s2 = snd (stopVps c0 True ticks c1 True s) in
       fst (stopVps c0 True ticks c1 True s) = Completed \<and>
       status (vps s2) = Stopped \<and>
       timeLeftSec (vps s2) = timeLeftSec (vps (ticks_run ticks s)) \<and>
       lastTickMs (vps s2) = nowMs c1 \<and>
       pointsBalance s2 = pointsBalance s \<and>
       vps (ticks_run later s2) = vps s2 \<and>
       (0 < timeLeftSec (vps s2) \<and> 50 \<le> pointsBalance s2 \<longrightarrow>
          fst (extendVps c2 True s2) = Completed \<and>
          pointsBalance (snd (extendVps c2 True s2)) = pointsBalance s2 - 50 \<and>
          timeLeftSec (vps (snd (extendVps c2 True s2))) = timeLeftSec (vps s2) + 3600 \<and>
          status (vps (snd (extendVps c2 True s2))) = Stopped))"
  proof (rule impI)
    assume run: "status (vps s) = Running"
    define m where "m = ticks_run ticks s"
    define s2 where "s2 = m\<lparr>vps := (vps m)\<lparr>status := Stopped, lastTickMs := nowMs c1\<rparr>\<rparr>"
    have whole: "stopVps c0 True ticks c1 True s = (Completed, s2)"
      using run by (simp add: stopVps_def stopVps_start_cases stopVps_resume_ok m_def s2_def)
    have st: "status (vps s2) = Stopped" by (simp add: s2_def)
    have frozen: "vps (ticks_run later s2) = vps s2"
      by (rule ticks_run_not_running) (simp add: st)
    have bal: "pointsBalance s2 = pointsBalance s"
      by (simp add: s2_def m_def ticks_run_balance)
    have fields: "timeLeftSec (vps s2) = timeLeftSec (vps m)" "lastTickMs (vps s2) = nowMs c1"
      by (simp_all add: s2_def)
    show "let s2 = snd (stopVps c0 True ticks c1 True s) in
       fst (stopVps c0 True ticks c1 True s) = Completed \<and>
       status (vps s2) = Stopped \<and>
       timeLeftSec (vps s2) = timeLeftSec (vps (ticks_run ticks s)) \<and>
       lastTickMs (vps s2) = nowMs c1 \<and>
       pointsBalance s2 = pointsBalance s \<and>
       vps (ticks_run later s2) = vps s2 \<and>
       (0 < timeLeftSec (vps s2) \<and> 50 \<le> pointsBalance s2 \<longrightarrow>
          fst (extendVps c2 True s2) = Completed \<and>
          pointsBalance (snd (extendVps c2 True s2)) = pointsBalance s2 - 50 \<and>
          timeLeftSec (vps (snd (extendVps c2 True s2))) = timeLeftSec (vps s2) + 3600 \<and>
          status (vps (snd (extendVps c2 True s2))) = Stopped)"
      unfolding whole Let_def fst_conv snd_conv
      using st frozen bal fields ext [OF st] by (simp add: m_def)
  qed
  have c1: "status (vps s) \<noteq> Running \<longrightarrow> stopVps c0 True ticks c1 ok s = (NotRunning, s)"
    using not_running by (rule impI)
  have c4: "status (vps s) = Stopped \<and> 0 < timeLeftSec (vps s) \<and> 50 \<le> pointsBalance s \<longrightarrow>
      fst (extendVps c2 True s) = Completed \<and>
      pointsBalance (snd (extendVps c2 True s)) = pointsBalance s - 50 \<and>
      timeLeftSec (vps (snd (extendVps c2 True s))) = timeLeftSec (vps s) + 3600 \<and>
      status (vps (snd (extendVps c2 True s))) = Stopped"
    using ext [of s] by blast
  from c1 stop_iff stop c4 extend_iff show ?thesis
    by - (intro conjI; assumption)
qed

text \<open>
  The theorem at a running lease with 100 seconds left and 60 points, stopped after
  one tick and then extended, and at the initial state.
\<close>

theorem stop_then_extend_witness:
  "fst (stopVps (at_day1 3000) True [at_day1 3500] (at_day1 4000) True stop_demo_state) = Completed \<and>
   status (vps (snd (stopVps (at_day1 3000) True [at_day1 3500] (at_day1 4000) True stop_demo_state))) = Stopped \<and>
   timeLeftSec (vps (snd (stopVps (at_day1 3000) True [at_day1 3500] (at_day1 4000) True stop_demo_state))) = 98 \<and>
   lastTickMs (vps (snd (stopVps (at_day1 3000) True [at_day1 3500] (at_day1 4000) True stop_demo_state))) = 1767225604000 \<and>
   pointsBalance (snd (stopVps (at_day1 3000) True [at_day1 3500] (at_day1 4000) True stop_demo_state)) = 60 \<and>
   fst (extendVps (at_day1 5000) True
     (snd (stopVps (at_day1 3000) True [at_day1 3500] (at_day1 4000) True stop_demo_state))) = Completed \<and>
   pointsBalance (snd (extendVps (at_day1 5000) True
     (snd (stopVps (at_day1 3000) True [at_day1 3500] (at_day1 4000) True stop_demo_state)))) = 10 \<and>
   timeLeftSec (vps (snd (extendVps (at_day1 5000) True
     (snd (stopVps (at_day1 3000) True [at_day1 3500] (at_day1 4000) True stop_demo_state))))) = 3698 \<and>
   status (vps (snd (extendVps (at_day1 5000) True
     (snd (stopVps (at_day1 3000) True [at_day1 3500] (at_day1 4000) True stop_demo_state))))) = Stopped \<and>
   stopVps (at_day1 3000) True [at_day1 3500] (at_day1 4000) True (initial (at_day1 1000))
     = (NotRunning, initial (at_day1 1000)) \<and>
   fst (extendVps (at_day1 5000) True (initial (at_day1 1000))) = NothingToExtend"
proof -
  have a: "status (vps stop_demo_state) = Running" "pointsBalance stop_demo_state = 60"
    by (simp_all add: stop_demo_state_def with_points_def running_state_def)
  have b: "timeLeftSec (vps (ticks_run [at_day1 3500] stop_demo_state)) = 98"
    by (simp add: ticks_run_def tick_vps stop_demo_state_def with_points_def running_state_def
        at_day1_def)
  have c: "nowMs (at_day1 4000) = 1767225604000"
    by (simp add: at_day1_def)
  have d: "status (vps (initial (at_day1 1000))) \<noteq> Running"
    "timeLeftSec (vps (initial (at_day1 1000))) \<le> 0"
    by (simp_all add: initial_def)
  show ?thesis
    using stop_then_extend [of stop_demo_state "at_day1 3000" "[at_day1 3500]" "at_day1 4000"
        True "[]" "at_day1 5000"]
      stop_then_extend [of "initial (at_day1 1000)" "at_day1 3000" "[at_day1 3500]" "at_day1 4000"
        True "[]" "at_day1 5000"]
      a b c d
    by (simp add: Let_def)
qed

subsection \<open>C7: what decreases the time left\<close>

text \<open>
  C7 as stated says that no operation decreases \<open>timeLeftSec\<close> while the lease is
  stopped or provisioning. The second stretch of \<open>createVps\<close> assigns
  \<open>CFG.redeem.seconds\<close> (line 889) whatever was left: after 14 video tasks, a lease
  created, extended once and stopped has 25200 seconds paused; creating again debits
  10 points, shows \<open>Provisioning\<close> with 25200 seconds, and ends with 21600.
\<close>

theorem createVps_shortens_paused_lease_counterexample:
  "status (vps paused_lease) = Stopped \<and>
   timeLeftSec (vps paused_lease) = 25200 \<and>
   status (vps (step (CreateVpsStart (at_day1 41400) True) paused_lease)) = Provisioning \<and>
   timeLeftSec (vps (step (CreateVpsStart (at_day1 41400) True) paused_lease)) = 25200 \<and>
   timeLeftSec (vps (step (CreateVpsResume (at_day1 42400))
     (step (CreateVpsStart (at_day1 41400) True) paused_lease))) = 21600"
  by (simp add: paused_lease_fields createVps_start_cases createVps_resume_vps)

text \<open>
  C7, amended: \<open>tick\<close> leaves the lease as it is while it is stopped or provisioning;
  while it is running, \<open>tick\<close> changes \<open>timeLeftSec\<close> only by subtracting the whole
  elapsed seconds, floored at 0. The second stretch of \<open>createVps\<close> sets \<open>timeLeftSec\<close>
  to 21600 whatever it was. Every other event leaves \<open>timeLeftSec\<close> as it is or
  increases it.
\<close>

theorem timeLeft_decreases_only_by_tick_or_create:
  "(status (vps s) \<noteq> Running \<longrightarrow> vps (tick c s) = vps s) \<and>
   (status (vps s) = Running \<longrightarrow>
      timeLeftSec (vps (tick c s)) =
        (if 0 < timeLeftSec (vps s) \<and> lastTickMs (vps s) \<noteq> 0 \<and>
            0 < (nowMs c - lastTickMs (vps s)) div 1000
         then max 0 (timeLeftSec (vps s) - (nowMs c - lastTickMs (vps s)) div 1000)
         else timeLeftSec (vps s))) \<and>
   timeLeftSec (vps (step (CreateVpsResume c) s)) = 21600 \<and>
   ((\<forall>c'. e \<noteq> Tick c') \<and> (\<forall>c'. e \<noteq> CreateVpsResume c') \<longrightarrow>
      timeLeftSec (vps s) \<le> timeLeftSec (vps (step e s)))"
proof -
  have stopped: "status (vps s) \<noteq> Running \<longrightarrow> vps (tick c s) = vps s"
    by (simp add: tick_not_running)
  have running: "status (vps s) = Running \<longrightarrow>
      timeLeftSec (vps (tick c s)) =
        (if 0 < timeLeftSec (vps s) \<and> lastTickMs (vps s) \<noteq> 0 \<and>
            0 < (nowMs c - lastTickMs (vps s)) div 1000
         then max 0 (timeLeftSec (vps s) - (nowMs c - lastTickMs (vps s)) div 1000)
         else timeLeftSec (vps s))"
    by (simp add: tick_vps Let_def max_def)
  have create: "timeLeftSec (vps (step (CreateVpsResume c) s)) = 21600"
    by (simp add: createVps_resume_vps)
  have others: "(\<forall>c'. e \<noteq> Tick c') \<and> (\<forall>c'. e \<noteq> CreateVpsResume c') \<longrightarrow>
      timeLeftSec (vps s) \<le> timeLeftSec (vps (step e s))"
    by (cases e) (simp_all only: step_timeLeft order_refl event.simps simp_thms)
  from stopped running create others show ?thesis
    by - (intro conjI; assumption)
qed

text \<open>
  The theorem at the paused lease (a tick, an extension and a creation) and at a
  running lease with 100 seconds left, ticked 2500 ms after its last reconciliation.
\<close>

theorem timeLeft_decreases_only_by_tick_or_create_witness:
  "vps (tick (at_day1 50000) paused_lease) = vps paused_lease \<and>
   timeLeftSec (vps (tick (at_day1 3500) (running_state 100 1000))) = 98 \<and>
   timeLeftSec (vps (step (CreateVpsResume (at_day1 50000)) paused_lease)) = 21600 \<and>
   timeLeftSec (vps paused_lease)
     \<le> timeLeftSec (vps (step (ExtendVps (at_day1 50000) True) paused_lease))"
proof -
  have a: "status (vps paused_lease) \<noteq> Running"
    by (simp add: paused_lease_fields)
  have b: "status (vps (running_state 100 1000)) = Running"
    "timeLeftSec (vps (running_state 100 1000)) = 100"
    "lastTickMs (vps (running_state 100 1000)) = 1767225601000"
    "nowMs (at_day1 3500) = 1767225603500"
    by (simp_all add: running_state_def at_day1_def)
  have c: "(\<forall>c'. ExtendVps (at_day1 50000) True \<noteq> Tick c') \<and>
      (\<forall>c'. ExtendVps (at_day1 50000) True \<noteq> CreateVpsResume c')"
    by simp
  show ?thesis
    using timeLeft_decreases_only_by_tick_or_create
        [of paused_lease "at_day1 50000" "ExtendVps (at_day1 50000) True"]
      timeLeft_decreases_only_by_tick_or_create
        [of "running_state 100 1000" "at_day1 3500" "ExtendVps (at_day1 50000) True"]
      a b c
    by simp
qed

subsection \<open>C8: a stale claimed date\<close>

text \<open>
  C8 says that \<open>ensureDaily\<close> leaves \<open>dailyClaimedUtcDate\<close> empty or equal to today's
  key. The load-time normalisation clears a stale value (lines 638 to 640);
  \<open>ensureDaily\<close> only resets it when \<open>utcDate\<close> differs from today. The state left by
  the claim across midnight of C4 has \<open>utcDate = 2026-01-02\<close> and
  \<open>dailyClaimedUtcDate = 2026-01-01\<close>: \<open>ensureDaily\<close> and \<open>tick\<close> on 2026-01-02 keep the
  stale value, while \<open>normalize\<close> on the same stored state clears it.
\<close>

theorem ensureDaily_keeps_stale_claim:
  "utcDateKey (newDate next_tick) = ''2026-01-02'' \<and>
   utcDate (daily stale_claim_state) = ''2026-01-02'' \<and>
   dailyClaimedUtcDate (daily stale_claim_state) = ''2026-01-01'' \<and>
   dailyClaimedUtcDate (daily (ensureDaily next_tick stale_claim_state)) = ''2026-01-01'' \<and>
   dailyClaimedUtcDate (daily (tick next_tick stale_claim_state)) = ''2026-01-01'' \<and>
   dailyClaimedUtcDate (daily (normalize next_tick 0 (stored stale_claim_state))) = ''''"
proof -
  have d: "daily stale_claim_state =
      \<lparr>utcDate = ''2026-01-02'', earned = 10, dailyClaimedUtcDate = ''2026-01-01''\<rparr>"
    by (simp add: stale_claim_state_def stale_claim_daily)
  have k: "utcDateKey (newDate next_tick) = ''2026-01-02''"
    by (simp add: next_tick_def at_day_keys)
  have same: "ensureDaily next_tick stale_claim_state = stale_claim_state"
    by (rule ensureDaily_same_day) (simp add: d k)
  have load: "dailyClaimedUtcDate (daily (normalize next_tick 0 (stored stale_claim_state))) = ''''"
    by (simp add: normalize_def stored_def Let_def d k)
  show ?thesis
    using load by (simp add: k tick_frame same d)
qed

subsection \<open>C9: the bounded activity log\<close>

text \<open>
  C9: the log holds at most 6 entries after every \<open>pushActivity\<close>, and a log of at
  most 6 entries stays so under every sequence of events. After appending the entries
  \<open>es\<close> the log is the first 6 of the entries newest first, followed by the old log;
  once 6 or more have been appended it is exactly the last 6 appended, newest first.
\<close>

theorem activity_log_bounded:
  "CFG_activityMax = 6 \<and>
   length (activity (pushActivity c l d s)) \<le> 6 \<and>
   (length (activity s) \<le> 6 \<longrightarrow> length (activity (run evs s)) \<le> 6) \<and>
   (es \<noteq> [] \<longrightarrow>
      activity (push_all es s) = take 6 (rev (map entry_of es) @ activity s)) \<and>
   (6 \<le> length es \<longrightarrow>
      length (activity (push_all es s)) = 6 \<and>
      activity (push_all es s) = rev (drop (length es - 6) (map entry_of es)))"
proof -
  have one: "length (activity (pushActivity c l d s)) \<le> 6"
    by (simp add: pushActivity_activity)
  have many: "length (activity s) \<le> 6 \<longrightarrow> length (activity (run evs s)) \<le> 6"
    by (simp add: run_activity_bound)
  have full: "length (activity (push_all es s)) = 6 \<and>
      activity (push_all es s) = rev (drop (length es - 6) (map entry_of es))"
    if "6 \<le> length es"
  proof -
    from that have "es \<noteq> []" by auto
    then show ?thesis using that by (simp add: push_all_activity take_rev)
  qed
  show ?thesis
    using one many full push_all_activity [of es s] by (simp add: CFG_activityMax_def)
qed

text \<open>
  The theorem at eight entries appended to the empty log: the last six remain,
  newest first.
\<close>

theorem activity_log_bounded_witness:
  "length (activity (run [CreateVpsResume (at_day1 2000), ExtendVps (at_day1 3000) True]
      (initial (at_day1 1000)))) \<le> 6 \<and>
   length (activity (push_all eight_entries (initial (at_day1 1000)))) = 6 \<and>
   activity (push_all eight_entries (initial (at_day1 1000))) =
     [\<lparr>label = ''h'', delta = 2, ts = 1767225600008\<rparr>, \<lparr>label = ''g'', delta = -50, ts = 1767225600007\<rparr>,
      \<lparr>label = ''f'', delta = 5, ts = 1767225600006\<rparr>, \<lparr>label = ''e'', delta = 5, ts = 1767225600005\<rparr>,
      \<lparr>label = ''d'', delta = -10, ts = 1767225600004\<rparr>, \<lparr>label = ''c'', delta = 10, ts = 1767225600003\<rparr>]"
proof -
  have a: "length (activity (initial (at_day1 1000))) \<le> 6"
    by (simp add: initial_def)
  have b: "6 \<le> length eight_entries"
    by (simp add: eight_entries_def)
  have c: "rev (drop (length eight_entries - 6) (map entry_of eight_entries)) =
     [\<lparr>label = ''h'', delta = 2, ts = 1767225600008\<rparr>, \<lparr>label = ''g'', delta = -50, ts = 1767225600007\<rparr>,
      \<lparr>label = ''f'', delta = 5, ts = 1767225600006\<rparr>, \<lparr>label = ''e'', delta = 5, ts = 1767225600005\<rparr>,
      \<lparr>label = ''d'', delta = -10, ts = 1767225600004\<rparr>, \<lparr>label = ''c'', delta = 10, ts = 1767225600003\<rparr>]"
    by (simp add: eight_entries_def entry_of_triple at_day1_def)
  show ?thesis
    using activity_log_bounded [of "at_day1 1" "''a''" 5 "initial (at_day1 1000)"
        "[CreateVpsResume (at_day1 2000), ExtendVps (at_day1 3000) True]" eight_entries] a b c
    by simp
qed

subsection \<open>C10: failed guards\<close>




end
